theory Spec2Isabelle
  imports Main "HOL-Library.Word"
begin

section \<open>imessage-reader: a shallow embedding of \<^verbatim>\<open>scripts/imessage-reader.c\<close>\<close>

text \<open>
  The program parses one optional flag, builds the path of the message store, runs one
  fixed query and prints the rows as a JSON array. The embedding follows the source
  function by function. Bytes are \<^typ>\<open>char\<close> (eight bits), and a C string is the list of
  bytes found at its pointer: the array ends with a terminating NUL that is not part of
  the list, and a NUL inside the list ends the string earlier, exactly as the C loops
  and library functions stop at the first NUL they read. A NULL pointer is \<open>None\<close>.
\<close>

subsection \<open>C strings\<close>

abbreviation NUL :: char where "NUL \<equiv> CHR 0x00"
abbreviation DQUOTE :: char where "DQUOTE \<equiv> CHR 0x22"
abbreviation BSLASH :: char where "BSLASH \<equiv> CHR 0x5C"

text \<open>The bytes of a C string: everything before the first NUL.\<close>

definition c_str :: "string \<Rightarrow> string" where
  "c_str s = takeWhile (\<lambda>c. c \<noteq> NUL) s"

text \<open>\<^verbatim>\<open>strcmp(a, b) == 0\<close>: the two strings hold the same bytes up to their NUL.\<close>

definition strcmp_eq :: "string \<Rightarrow> string \<Rightarrow> bool" where
  "strcmp_eq a b = (c_str a = c_str b)"

subsection \<open>\<^verbatim>\<open>print_json_string\<close>\<close>

text \<open>
  \<^verbatim>\<open>printf("%04x", c)\<close>: the value in lower-case hexadecimal, padded with zeros on the
  left to at least four digits.
\<close>

definition hex_digit :: "nat \<Rightarrow> char" where
  "hex_digit d = (if d < 10 then char_of (of_char CHR ''0'' + d)
                  else char_of (of_char CHR ''a'' + (d - 10)))"

fun hex_of_nat :: "nat \<Rightarrow> string" where
  "hex_of_nat n =
     (if n < 16 then [hex_digit n] else hex_of_nat (n div 16) @ [hex_digit (n mod 16)])"

definition printf_04x :: "nat \<Rightarrow> string" where
  "printf_04x n = (let ds = hex_of_nat n in replicate (4 - length ds) CHR ''0'' @ ds)"

text \<open>
  The body of the \<^verbatim>\<open>switch (c)\<close>: what one byte of the string adds to standard output.
  The cases come in the source's order: \<^verbatim>\<open>'"'\<close>, \<^verbatim>\<open>'\\'\<close>, \<^verbatim>\<open>'\n'\<close>, \<^verbatim>\<open>'\r'\<close>,
  \<^verbatim>\<open>'\t'\<close>, \<^verbatim>\<open>'\b'\<close>, \<^verbatim>\<open>'\f'\<close>, then the default with its test \<^verbatim>\<open>c < 0x20\<close> on the
  \<^verbatim>\<open>unsigned char\<close>.
\<close>

definition json_escape :: "char \<Rightarrow> string" where
  "json_escape c =
     (if c = DQUOTE then [BSLASH, DQUOTE]
      else if c = BSLASH then [BSLASH, BSLASH]
      else if c = CHR 0x0A then [BSLASH, CHR ''n'']
      else if c = CHR 0x0D then [BSLASH, CHR ''r'']
      else if c = CHR 0x09 then [BSLASH, CHR ''t'']
      else if c = CHR 0x08 then [BSLASH, CHR ''b'']
      else if c = CHR 0x0C then [BSLASH, CHR ''f'']
      else if (of_char c :: nat) < 0x20 then [BSLASH, CHR ''u''] @ printf_04x (of_char c)
      else [c])"

text \<open>
  The loop \<^verbatim>\<open>for (const char *p = s; *p; p++)\<close>: it stops at the first NUL, which is
  either inside the list or the terminator right after it.
\<close>

fun print_json_chars :: "string \<Rightarrow> string" where
  "print_json_chars [] = []"
| "print_json_chars (c # p) =
     (if c = NUL then [] else json_escape c @ print_json_chars p)"

text \<open>
  \<^verbatim>\<open>print_json_string(s)\<close>, as the bytes it writes to standard output: the opening
  quote, for NULL the closing quote at once, otherwise the escaped bytes and the closing
  quote.
\<close>

fun print_json_string :: "string option \<Rightarrow> string" where
  "print_json_string None = [DQUOTE] @ [DQUOTE]"
| "print_json_string (Some s) = [DQUOTE] @ print_json_chars s @ [DQUOTE]"

subsection \<open>Rows and the JSON array\<close>

text \<open>
  One result row as \<^verbatim>\<open>main\<close> reads it: the three \<^verbatim>\<open>sqlite3_column_text\<close> pointers, NULL
  for an SQL NULL.
\<close>

record row =
  guid :: "string option"
  "text" :: "string option"
  date_local :: "string option"

text \<open>The four \<^verbatim>\<open>printf\<close> calls and three \<^verbatim>\<open>print_json_string\<close> calls of the loop body.\<close>

definition print_row :: "row \<Rightarrow> string" where
  \<open>print_row r =
     ''{"guid":'' @ print_json_string (guid r)
     @ '',"text":'' @ print_json_string (text r)
     @ '',"date_local":'' @ print_json_string (date_local r)
     @ ''}''\<close>

definition SQLITE_OK :: int where "SQLITE_OK = 0"
definition SQLITE_ROW :: int where "SQLITE_ROW = 100"
definition SQLITE_DONE :: int where "SQLITE_DONE = 101"

text \<open>
  The engine is outside the program. Its answers to the successive \<^verbatim>\<open>sqlite3_step\<close> calls
  are a script: each entry is the result code of one call and the row the column
  functions see after it. A statement whose script is used up reports \<^verbatim>\<open>SQLITE_DONE\<close>.

  The loop \<^verbatim>\<open>while ((rc = sqlite3_step(stmt)) == SQLITE_ROW)\<close> carries the script that
  is left, \<^verbatim>\<open>row_count\<close> (a C \<^verbatim>\<open>int\<close>: a 32-bit word read as signed) and the bytes
  written to standard output so far; it returns the last \<^verbatim>\<open>rc\<close> and the output.
\<close>

fun step_loop :: "(int \<times> row) list \<Rightarrow> 32 word \<Rightarrow> string \<Rightarrow> int \<times> string" where
  "step_loop [] row_count out = (SQLITE_DONE, out)"
| "step_loop ((rc, r) # script) row_count out =
     (if rc = SQLITE_ROW
      then step_loop script (row_count + 1)
             (out @ (if 0 <s row_count then '','' else []) @ print_row r)
      else (rc, out))"

subsection \<open>The command line\<close>

definition DEFAULT_MINUTES :: int where "DEFAULT_MINUTES = 20"
definition MAX_PATH :: nat where "MAX_PATH = 1024"
definition INT_MIN :: int where "INT_MIN = - (2 ^ 31)"
definition INT_MAX :: int where "INT_MAX = 2 ^ 31 - 1"

text \<open>
  \<^verbatim>\<open>atoi\<close> is the C library's. ISO C defines it as \<^verbatim>\<open>(int)strtol(s, NULL, 10)\<close>: white
  space is skipped, an optional sign is read, then the longest run of decimal digits;
  with no digit the value is 0. When the value does not fit an \<^verbatim>\<open>int\<close> the behaviour
  is undefined: \<open>None\<close>. No case reads past a NUL, which is neither space, sign nor digit.
\<close>

definition isspace :: "char \<Rightarrow> bool" where
  "isspace c = (c = CHR 0x20 \<or> c = CHR 0x09 \<or> c = CHR 0x0A \<or> c = CHR 0x0B
                \<or> c = CHR 0x0C \<or> c = CHR 0x0D)"

definition isdigit :: "char \<Rightarrow> bool" where
  "isdigit c = ((of_char CHR ''0'' :: nat) \<le> of_char c \<and> (of_char c :: nat) \<le> of_char CHR ''9'')"

definition digit_value :: "char \<Rightarrow> int" where
  "digit_value c = int (of_char c) - int (of_char CHR ''0'')"

fun digits_value :: "string \<Rightarrow> int \<Rightarrow> int" where
  "digits_value [] acc = acc"
| "digits_value (c # cs) acc =
     (if isdigit c then digits_value cs (acc * 10 + digit_value c) else acc)"

definition strtol_value :: "string \<Rightarrow> int" where
  "strtol_value s =
     (case dropWhile isspace s of
        [] \<Rightarrow> 0
      | c # cs \<Rightarrow>
          if c = CHR ''-'' then - digits_value cs 0
          else if c = CHR ''+'' then digits_value cs 0
          else digits_value (c # cs) 0)"

definition atoi :: "string \<Rightarrow> int option" where
  "atoi s = (let v = strtol_value s in if INT_MIN \<le> v \<and> v \<le> INT_MAX then Some v else None)"

text \<open>\<^verbatim>\<open>usage(prog)\<close>: the line it writes to standard error before \<^verbatim>\<open>exit(1)\<close>.\<close>

definition usage :: "string \<Rightarrow> string" where
  "usage prog = ''Usage: '' @ c_str prog @ '' [--minutes N]'' @ [CHR 0x0A]"

text \<open>
  How the argument loop ends: with the value of \<^verbatim>\<open>minutes\<close>, with an exit of status 1
  after the given text went to standard error, or in undefined behaviour.
\<close>

datatype parsed = Minutes int | Exit_1 string | Undefined_behaviour

text \<open>
  The loop \<^verbatim>\<open>for (int i = 1; i < argc; i++)\<close>, given \<^verbatim>\<open>argv[0]\<close>, the arguments from
  \<^verbatim>\<open>argv[i]\<close> on and the current \<^verbatim>\<open>minutes\<close>.
\<close>

fun parse_arguments :: "string \<Rightarrow> string list \<Rightarrow> int \<Rightarrow> parsed" where
  "parse_arguments prog [] minutes = Minutes minutes"
| "parse_arguments prog [a] minutes =
     (if strcmp_eq a ''--minutes''
      then Exit_1 (''Error: --minutes requires a value'' @ [CHR 0x0A] @ usage prog)
      else Exit_1 (''Error: unknown argument '' @ [CHR 0x27] @ c_str a @ [CHR 0x27, CHR 0x0A]
                   @ usage prog))"
| "parse_arguments prog (a # v # rest) minutes =
     (if strcmp_eq a ''--minutes''
      then (case atoi v of
              None \<Rightarrow> Undefined_behaviour
            | Some m \<Rightarrow>
                if m \<le> 0
                then Exit_1 (''Error: minutes must be a positive integer'' @ [CHR 0x0A])
                else parse_arguments prog rest m)
      else Exit_1 (''Error: unknown argument '' @ [CHR 0x27] @ c_str a @ [CHR 0x27, CHR 0x0A]
                   @ usage prog))"

subsection \<open>The path of the message store\<close>

text \<open>
  \<^verbatim>\<open>snprintf(db_path, n, "%s/Library/Messages/chat.db", home)\<close>, as the C string left
  in the buffer: at most \<open>n - 1\<close> bytes of the formatted text, then the NUL. The call's
  return value, which would tell a truncation, is not read by \<^verbatim>\<open>main\<close>.
\<close>

definition snprintf_db_path :: "nat \<Rightarrow> string \<Rightarrow> string" where
  "snprintf_db_path n home = take (n - 1) (c_str home @ ''/Library/Messages/chat.db'')"

subsection \<open>\<^verbatim>\<open>main\<close>\<close>

text \<open>
  What \<^verbatim>\<open>main\<close> reads from outside: \<^verbatim>\<open>getenv("HOME")\<close>, the home directory of
  \<^verbatim>\<open>getpwuid(getuid())\<close> (\<open>None\<close> when the record is missing), the result code of
  \<^verbatim>\<open>sqlite3_open_v2\<close> for a path, of \<^verbatim>\<open>sqlite3_prepare_v2\<close> and of \<^verbatim>\<open>sqlite3_bind_int\<close>
  for the value bound, the script of \<^verbatim>\<open>sqlite3_step\<close>, and the text of \<^verbatim>\<open>sqlite3_errmsg\<close>.
\<close>

record world =
  env_HOME :: "string option"
  pw_dir :: "string option"
  open_rc :: "string \<Rightarrow> int"
  prepare_rc :: int
  bind_rc :: "int \<Rightarrow> int"
  step_script :: "(int \<times> row) list"
  errmsg :: string

text \<open>
  What a run leaves behind: the bytes on standard output and on standard error, the exit
  status, and the path handed to \<^verbatim>\<open>sqlite3_open_v2\<close> if the run got that far.
\<close>

record result =
  stdout :: string
  stderr :: string
  exit_status :: int
  opened :: "string option"

definition home_directory :: "world \<Rightarrow> string option" where
  "home_directory w = (case env_HOME w of Some h \<Rightarrow> Some h | None \<Rightarrow> pw_dir w)"

text \<open>The part of \<^verbatim>\<open>main\<close> after the argument loop, for the parsed \<^verbatim>\<open>minutes\<close>.\<close>

definition main_query :: "world \<Rightarrow> int \<Rightarrow> result" where
  "main_query w minutes =
     (case home_directory w of
        None \<Rightarrow>
          \<lparr>stdout = [], stderr = ''Error: cannot determine home directory'' @ [CHR 0x0A],
           exit_status = 1, opened = None\<rparr>
      | Some home \<Rightarrow>
          let db_path = snprintf_db_path MAX_PATH home in
          if open_rc w db_path \<noteq> SQLITE_OK then
            \<lparr>stdout = [],
             stderr = ''Error: cannot open '' @ db_path @ '': '' @ c_str (errmsg w) @ [CHR 0x0A],
             exit_status = 1, opened = Some db_path\<rparr>
          else if prepare_rc w \<noteq> SQLITE_OK then
            \<lparr>stdout = [],
             stderr = ''Error: SQL prepare failed: '' @ c_str (errmsg w) @ [CHR 0x0A],
             exit_status = 1, opened = Some db_path\<rparr>
          else if bind_rc w minutes \<noteq> SQLITE_OK then
            \<lparr>stdout = [],
             stderr = ''Error: bind failed: '' @ c_str (errmsg w) @ [CHR 0x0A],
             exit_status = 1, opened = Some db_path\<rparr>
          else
            (case step_loop (step_script w) 0 ''['' of
               (rc, out) \<Rightarrow>
                 if rc \<noteq> SQLITE_DONE then
                   \<lparr>stdout = out @ '']'' @ [CHR 0x0A],
                    stderr = ''Error: query execution failed: '' @ c_str (errmsg w) @ [CHR 0x0A],
                    exit_status = 1, opened = Some db_path\<rparr>
                 else
                   \<lparr>stdout = out @ '']'' @ [CHR 0x0A], stderr = [],
                    exit_status = 0, opened = Some db_path\<rparr>))"

text \<open>
  \<^verbatim>\<open>main(argc, argv)\<close> with \<open>argc = length argv\<close>. \<open>None\<close> is undefined behaviour (an
  \<^verbatim>\<open>atoi\<close> out of range); every other run ends with a result.
\<close>

definition main :: "world \<Rightarrow> string list \<Rightarrow> result option" where
  "main w argv =
     (case parse_arguments (case argv of [] \<Rightarrow> [] | p # _ \<Rightarrow> p) (drop 1 argv) DEFAULT_MINUTES of
        Undefined_behaviour \<Rightarrow> None
      | Exit_1 err \<Rightarrow> Some \<lparr>stdout = [], stderr = err, exit_status = 1, opened = None\<rparr>
      | Minutes minutes \<Rightarrow> Some (main_query w minutes))"

subsection \<open>The query\<close>

text \<open>
  The \<^verbatim>\<open>WHERE\<close> clause of \<^verbatim>\<open>SQL_QUERY\<close>:
  \<^verbatim>\<open>m.text LIKE 'jarvis:%' AND m.date > ((strftime('%s', 'now') - 978307200 - (? * 60)) * 1000000000)\<close>.
  It is evaluated by the engine, with the engine's numbers: an INTEGER is a signed 64-bit
  value, a REAL is an IEEE 754 double. The engine computes \<^verbatim>\<open>-\<close> and \<^verbatim>\<open>*\<close> on two
  INTEGERs in integer arithmetic when the result fits 64 bits; when it does not, or when
  an operand is a REAL, it converts both operands to doubles and computes in double
  arithmetic, each conversion and each operation rounding to the nearest double, ties
  to even. Every number of this clause is whole, so a REAL is given by the whole number
  the double is; none comes near the largest double.
\<close>

definition INT64_MIN :: int where "INT64_MIN = - (2 ^ 63)"
definition INT64_MAX :: int where "INT64_MAX = 2 ^ 63 - 1"

definition int64 :: "int \<Rightarrow> bool" where
  "int64 v = (INT64_MIN \<le> v \<and> v \<le> INT64_MAX)"

text \<open>The number of binary digits of a natural number.\<close>

fun bit_length :: "nat \<Rightarrow> nat" where
  "bit_length n = (if n = 0 then 0 else Suc (bit_length (n div 2)))"

text \<open>
  The double nearest to a whole number: the number itself when it has at most 53 binary
  digits; otherwise its \<open>e\<close> lowest digits are dropped, where \<open>e\<close> is the number of digits
  above 53, and the rest is rounded up when the dropped part is more than half a unit,
  or exactly half and the rest is odd.
\<close>

definition round_to_double :: "int \<Rightarrow> int" where
  "round_to_double x =
     (let a = nat \<bar>x\<bar>;
          e = bit_length a - 53;
          q = a div 2 ^ e;
          r = a mod 2 ^ e;
          q' = (if 2 ^ e < 2 * r \<or> (2 * r = 2 ^ e \<and> odd q) then q + 1 else q)
      in sgn x * int (q' * 2 ^ e))"

datatype sql_value = Integer int | Real int

text \<open>The operand as a double, for double arithmetic.\<close>

fun to_double :: "sql_value \<Rightarrow> int" where
  "to_double (Integer i) = round_to_double i"
| "to_double (Real d) = d"

fun sql_sub :: "sql_value \<Rightarrow> sql_value \<Rightarrow> sql_value" where
  "sql_sub (Integer a) (Integer b) =
     (if int64 (a - b) then Integer (a - b)
      else Real (round_to_double (round_to_double a - round_to_double b)))"
| "sql_sub x y = Real (round_to_double (to_double x - to_double y))"

fun sql_mul :: "sql_value \<Rightarrow> sql_value \<Rightarrow> sql_value" where
  "sql_mul (Integer a) (Integer b) =
     (if int64 (a * b) then Integer (a * b)
      else Real (round_to_double (round_to_double a * round_to_double b)))"
| "sql_mul x y = Real (round_to_double (to_double x * to_double y))"

text \<open>
  \<^verbatim>\<open>((strftime('%s', 'now') - 978307200 - (? * 60)) * 1000000000)\<close>, operand by operand.
  \<open>now\<close> is the integer \<^verbatim>\<open>strftime('%s', 'now')\<close> denotes, the seconds of the clock since
  1970, and the parameter \<^verbatim>\<open>?\<close> is \<^verbatim>\<open>minutes\<close>, bound with \<^verbatim>\<open>sqlite3_bind_int\<close>.
\<close>

definition date_threshold :: "int \<Rightarrow> int \<Rightarrow> sql_value" where
  "date_threshold now minutes =
     sql_mul
       (sql_sub (sql_sub (Integer now) (Integer 978307200)) (sql_mul (Integer minutes) (Integer 60)))
       (Integer 1000000000)"

text \<open>The number a value is.\<close>

fun sql_number :: "sql_value \<Rightarrow> int" where
  "sql_number (Integer i) = i"
| "sql_number (Real d) = d"

text \<open>
  \<^verbatim>\<open>m.date > threshold\<close> for an INTEGER \<^verbatim>\<open>m.date\<close>: the engine compares an INTEGER with an
  INTEGER, and an INTEGER with a REAL, by the numbers they are, without rounding the
  INTEGER.
\<close>

fun sql_integer_gt :: "int \<Rightarrow> sql_value \<Rightarrow> bool" where
  "sql_integer_gt i (Integer t) = (t < i)"
| "sql_integer_gt i (Real d) = (d < i)"

text \<open>
  The clock values the engine's date functions can denote, from year 0000 to year 9999.
\<close>

definition clock :: "int \<Rightarrow> bool" where
  "clock now = (- 62167219200 \<le> now \<and> now \<le> 253402300799)"

text \<open>
  A row of the table \<^verbatim>\<open>message\<close>, with the columns the clause reads: \<^verbatim>\<open>text\<close> (NULL is
  \<open>None\<close>) and \<^verbatim>\<open>date\<close>, an INTEGER, nanoseconds since the store's epoch.
\<close>

record message =
  m_text :: "string option"
  m_date :: int

text \<open>
  \<^verbatim>\<open>m.text LIKE 'jarvis:%'\<close>: the text starts with \<^verbatim>\<open>jarvis:\<close>, where the engine's \<^verbatim>\<open>LIKE\<close>
  does not tell an ASCII upper-case letter from its lower-case one. NULL never matches.
\<close>

definition ascii_lower :: "char \<Rightarrow> char" where
  "ascii_lower c =
     (if (of_char CHR ''A'' :: nat) \<le> of_char c \<and> (of_char c :: nat) \<le> of_char CHR ''Z''
      then char_of ((of_char c :: nat) + 32) else c)"

definition like_jarvis :: "string option \<Rightarrow> bool" where
  "like_jarvis t =
     (case t of
        None \<Rightarrow> False
      | Some s \<Rightarrow> map ascii_lower (take (length ''jarvis:'') s) = ''jarvis:'')"

text \<open>Whether the clause selects the row.\<close>

definition where_clause :: "int \<Rightarrow> int \<Rightarrow> message \<Rightarrow> bool" where
  "where_clause now minutes m =
     (like_jarvis (m_text m) \<and> sql_integer_gt (m_date m) (date_threshold now minutes))"

subsection \<open>JSON as its readers see it\<close>

text \<open>
  To state what the output is worth to a JSON parser, the string grammar of RFC 8259 as
  a decoder on bytes: a string literal is a quote, then characters, then a quote, where
  a character is a byte from 0x20 on other than the quote and the backslash, or one of
  the escapes \<^verbatim>\<open>\" \\ \/ \b \f \n \r \t\<close>, or \<^verbatim>\<open>\uXXXX\<close> with four hexadecimal digits.
  The decoder returns the bytes the literal denotes, \<open>None\<close> for anything that is not
  one complete literal. It accepts less than the RFC: an \<^verbatim>\<open>\uXXXX\<close> from 0x80 on, which
  denotes more than one byte of UTF-8, is refused, and bytes from 0x80 on are taken as
  they are, with no check that they form UTF-8.
\<close>

definition hex_value :: "char \<Rightarrow> nat option" where
  "hex_value c =
     (let n = (of_char c :: nat) in
      if of_char CHR ''0'' \<le> n \<and> n \<le> of_char CHR ''9'' then Some (n - of_char CHR ''0'')
      else if of_char CHR ''a'' \<le> n \<and> n \<le> of_char CHR ''f'' then Some (n - of_char CHR ''a'' + 10)
      else if of_char CHR ''A'' \<le> n \<and> n \<le> of_char CHR ''F'' then Some (n - of_char CHR ''A'' + 10)
      else None)"

fun json_string_body :: "string \<Rightarrow> string option" where
  "json_string_body [] = None"
| "json_string_body (c # cs) =
     (if c = DQUOTE then (if cs = [] then Some [] else None)
      else if c = BSLASH then
        (case cs of
           [] \<Rightarrow> None
         | e # r \<Rightarrow>
             if e = DQUOTE then map_option (Cons DQUOTE) (json_string_body r)
             else if e = BSLASH then map_option (Cons BSLASH) (json_string_body r)
             else if e = CHR ''/'' then map_option (Cons CHR ''/'') (json_string_body r)
             else if e = CHR ''b'' then map_option (Cons (CHR 0x08)) (json_string_body r)
             else if e = CHR ''f'' then map_option (Cons (CHR 0x0C)) (json_string_body r)
             else if e = CHR ''n'' then map_option (Cons (CHR 0x0A)) (json_string_body r)
             else if e = CHR ''r'' then map_option (Cons (CHR 0x0D)) (json_string_body r)
             else if e = CHR ''t'' then map_option (Cons (CHR 0x09)) (json_string_body r)
             else if e = CHR ''u'' then
               (case r of
                  h1 # h2 # h3 # h4 # r' \<Rightarrow>
                    (case (hex_value h1, hex_value h2, hex_value h3, hex_value h4) of
                       (Some d1, Some d2, Some d3, Some d4) \<Rightarrow>
                         (let n = ((d1 * 16 + d2) * 16 + d3) * 16 + d4 in
                          if n < 0x80 then map_option (Cons (char_of n)) (json_string_body r')
                          else None)
                     | _ \<Rightarrow> None)
                | _ \<Rightarrow> None)
             else None)
      else if (of_char c :: nat) < 0x20 then None
      else map_option (Cons c) (json_string_body cs))"

definition json_string_decode :: "string \<Rightarrow> string option" where
  "json_string_decode t =
     (case t of [] \<Rightarrow> None | q # body \<Rightarrow> if q = DQUOTE then json_string_body body else None)"

text \<open>
  The values of RFC 8259 that are strings, arrays and objects, written without white
  space: an array is \<^verbatim>\<open>[]\<close> or \<^verbatim>\<open>[\<close> elements \<^verbatim>\<open>]\<close>, elements are values with one comma
  between neighbours; an object is \<^verbatim>\<open>{}\<close> or \<^verbatim>\<open>{\<close> members \<^verbatim>\<open>}\<close>, members are
  string \<^verbatim>\<open>:\<close> value pairs with one comma between neighbours.
\<close>

inductive json_value :: "string \<Rightarrow> bool"
  and json_elements :: "string \<Rightarrow> bool"
  and json_members :: "string \<Rightarrow> bool"
where
  json_string: "json_string_decode t = Some u \<Longrightarrow> json_value t"
| json_empty_array: "json_value ''[]''"
| json_array: "json_elements es \<Longrightarrow> json_value (''['' @ es @ '']'')"
| json_empty_object: "json_value ''{}''"
| json_object: "json_members ms \<Longrightarrow> json_value (''{'' @ ms @ ''}'')"
| json_element: "json_value v \<Longrightarrow> json_elements v"
| json_more_elements:
    "json_value v \<Longrightarrow> json_elements es \<Longrightarrow> json_elements (v @ '','' @ es)"
| json_member:
    "json_string_decode k = Some u \<Longrightarrow> json_value v \<Longrightarrow> json_members (k @ '':'' @ v)"
| json_more_members:
    "json_string_decode k = Some u \<Longrightarrow> json_value v \<Longrightarrow> json_members ms
     \<Longrightarrow> json_members (k @ '':'' @ v @ '','' @ ms)"

text \<open>Items with one comma between neighbours, and none after the last.\<close>

fun comma_separated :: "string list \<Rightarrow> string" where
  "comma_separated [] = []"
| "comma_separated [x] = x"
| "comma_separated (x # y # ys) = x @ '','' @ comma_separated (y # ys)"


text \<open>The decimal numeral of a natural number, as a user types it after the flag.\<close>

fun decimal_of :: "nat \<Rightarrow> string" where
  "decimal_of n =
     (if n < 10 then [char_of (of_char CHR ''0'' + n)]
      else decimal_of (n div 10) @ [char_of (of_char CHR ''0'' + n mod 10)])"

section \<open>Properties\<close>

subsection \<open>The string emitter\<close>

declare hex_of_nat.simps [simp del]


lemma hex_digit_0: "hex_digit 0 = CHR ''0''"
  by code_simp

lemma hex_of_nat_byte:
  assumes "n < 256"
  shows "hex_of_nat n =
    (if n < 16 then [hex_digit n] else [hex_digit (n div 16), hex_digit (n mod 16)])"
proof (cases "n < 16")
  case True
  then show ?thesis by (simp add: hex_of_nat.simps [of n])
next
  case False
  from assms have "n div 16 < 16" by simp
  with False show ?thesis
    by (simp add: hex_of_nat.simps [of n] hex_of_nat.simps [of "n div 16"])
qed

lemma printf_04x_byte:
  assumes "n < 256"
  shows "printf_04x n = [CHR ''0'', CHR ''0'', hex_digit (n div 16), hex_digit (n mod 16)]"
proof (cases "n < 16")
  case True
  then have "hex_of_nat n = [hex_digit n]"
    by (simp add: hex_of_nat.simps [of n])
  with True show ?thesis
    by (simp add: printf_04x_def hex_digit_0 numeral_3_eq_3)
next
  case False
  with assms have "hex_of_nat n = [hex_digit (n div 16), hex_digit (n mod 16)]"
    by (simp add: hex_of_nat_byte)
  then show ?thesis
    by (simp add: printf_04x_def numeral_2_eq_2)
qed

lemma json_escape_control:
  assumes "(of_char c :: nat) < 0x20"
    and "c \<noteq> CHR 0x0A" "c \<noteq> CHR 0x0D" "c \<noteq> CHR 0x09" "c \<noteq> CHR 0x08" "c \<noteq> CHR 0x0C"
  shows "json_escape c =
    [BSLASH, CHR ''u'', CHR ''0'', CHR ''0'',
     hex_digit (of_char c div 16), hex_digit (of_char c mod 16)]"
proof -
  have "c \<noteq> DQUOTE" "c \<noteq> BSLASH" using assms(1) by auto
  moreover have "(of_char c :: nat) < 256" using assms(1) by simp
  ultimately show ?thesis using assms
    by (simp add: json_escape_def printf_04x_byte)
qed

lemma json_escape_plain:
  assumes "\<not> (of_char c :: nat) < 0x20" "c \<noteq> DQUOTE" "c \<noteq> BSLASH"
  shows "json_escape c = [c]"
proof -
  have "c \<noteq> CHR 0x0A" "c \<noteq> CHR 0x0D" "c \<noteq> CHR 0x09" "c \<noteq> CHR 0x08" "c \<noteq> CHR 0x0C"
    using assms(1) by auto
  then show ?thesis using assms by (simp add: json_escape_def)
qed



text \<open>
  Claim C5. A field of a row that is absent (the column pointer is NULL) is printed as
  the empty JSON string \<^verbatim>\<open>""\<close>, never as \<^verbatim>\<open>null\<close>: this holds for \<^verbatim>\<open>guid\<close>, for \<^verbatim>\<open>text\<close> and
  for \<^verbatim>\<open>date_local\<close>, whatever the other two fields are.
\<close>

theorem null_field_is_empty_string:
  \<open>print_json_string None = ''""''
   \<and> print_row (r\<lparr>guid := None\<rparr>) =
       ''{"guid":"","text":'' @ print_json_string (text r)
       @ '',"date_local":'' @ print_json_string (date_local r) @ ''}''
   \<and> print_row (r\<lparr>text := None\<rparr>) =
       ''{"guid":'' @ print_json_string (guid r) @ '',"text":"","date_local":''
       @ print_json_string (date_local r) @ ''}''
   \<and> print_row (r\<lparr>date_local := None\<rparr>) =
       ''{"guid":'' @ print_json_string (guid r) @ '',"text":''
       @ print_json_string (text r) @ '',"date_local":""}''
   \<and> print_row \<lparr>guid = None, text = None, date_local = None\<rparr> =
       ''{"guid":"","text":"","date_local":""}''\<close>
  by (simp add: print_row_def)

lemma hex_value_hex_digit:
  assumes "d < 16"
  shows "hex_value (hex_digit d) = Some d"
proof -
  have "d = 0 \<or> d = 1 \<or> d = 2 \<or> d = 3 \<or> d = 4 \<or> d = 5 \<or> d = 6 \<or> d = 7 \<or> d = 8
      \<or> d = 9 \<or> d = 10 \<or> d = 11 \<or> d = 12 \<or> d = 13 \<or> d = 14 \<or> d = 15"
    using assms by arith
  then show ?thesis
    by (elim disjE; hypsubst; code_simp)
qed

lemma hex_value_zero: "hex_value CHR ''0'' = Some 0"
  by code_simp

lemma json_string_body_escape:
  assumes "c \<noteq> NUL"
  shows "json_string_body (json_escape c @ rest) = map_option (Cons c) (json_string_body rest)"
proof -
  consider (two) "c \<in> {DQUOTE, BSLASH, CHR 0x0A, CHR 0x0D, CHR 0x09, CHR 0x08, CHR 0x0C}"
    | (six) "c \<notin> {DQUOTE, BSLASH, CHR 0x0A, CHR 0x0D, CHR 0x09, CHR 0x08, CHR 0x0C}"
        "(of_char c :: nat) < 0x20"
    | (plain) "c \<notin> {DQUOTE, BSLASH, CHR 0x0A, CHR 0x0D, CHR 0x09, CHR 0x08, CHR 0x0C}"
        "\<not> (of_char c :: nat) < 0x20"
    by blast
  then show ?thesis
  proof cases
    case two
    then show ?thesis
      by (elim insertE emptyE; hypsubst; simp add: json_escape_def)
  next
    case six
    let ?hi = "(of_char c :: nat) div 16" and ?lo = "(of_char c :: nat) mod 16"
    from six have esc: "json_escape c = [BSLASH, CHR ''u'', CHR ''0'', CHR ''0'', hex_digit ?hi, hex_digit ?lo]"
      by (simp add: json_escape_control)
    from six(2) have "?hi < 16" "?lo < 16" by simp_all
    then have hv: "hex_value (hex_digit ?hi) = Some ?hi" "hex_value (hex_digit ?lo) = Some ?lo"
      by (simp_all add: hex_value_hex_digit)
    have n: "((0 * 16 + 0) * 16 + ?hi) * 16 + ?lo = (of_char c :: nat)" by simp
    have small: "(of_char c :: nat) < 0x80" using six(2) by simp
    show ?thesis
      unfolding esc using small
      by (simp add: hex_value_zero hv)
  next
    case plain
    then have "json_escape c = [c]" by (simp add: json_escape_plain)
    with plain show ?thesis by simp
  qed
qed

lemma json_string_body_chars:
  "json_string_body (print_json_chars s @ [DQUOTE]) = Some (c_str s)"
proof (induction s)
  case Nil
  show ?case by (simp add: c_str_def)
next
  case (Cons a s)
  show ?case
  proof (cases "a = NUL")
    case True
    then show ?thesis by (simp add: c_str_def)
  next
    case False
    with Cons show ?thesis
      by (simp add: c_str_def json_string_body_escape)
  qed
qed

lemma json_string_decode_print:
  "json_string_decode (print_json_string f) = Some (case f of None \<Rightarrow> [] | Some s \<Rightarrow> c_str s)"
  by (cases f) (simp_all add: json_string_decode_def json_string_body_chars)

text \<open>
  Claim C7. Escaping and then parsing gives the string back: for every string (so also
  for one that holds a double quote, a backslash, a newline and the control byte 0x01),
  what \<^verbatim>\<open>print_json_string\<close> writes is one complete JSON string literal, and decoding it
  gives exactly the bytes of the string, the printable ones and the others. A NULL
  pointer is written as the literal of the empty string.
\<close>

theorem escape_then_parse:
  "json_string_decode (print_json_string (Some s)) = Some (c_str s)
   \<and> json_string_decode (print_json_string None) = Some []
   \<and> json_string_decode (print_json_string (Some [DQUOTE, BSLASH, CHR 0x0A, CHR 0x01, CHR ''a'']))
       = Some [DQUOTE, BSLASH, CHR 0x0A, CHR 0x01, CHR ''a'']"
  by (simp add: json_string_decode_print c_str_def del: print_json_string.simps)

subsection \<open>The array of rows\<close>

lemma comma_separated_Cons:
  "comma_separated (x # xs) = x @ concat (map (\<lambda>y. '','' @ y) xs)"
  by (induction xs arbitrary: x) simp_all

lemma row_count_positive:
  assumes "0 < k" "k < 2 ^ 31"
  shows "0 <s (of_nat k :: 32 word)"
proof -
  have "sint (of_nat k :: 32 word) = int k"
    using assms(2) by (simp add: signed_of_nat signed_take_bit_int_eq_self)
  with assms(1) show ?thesis by (simp add: word_sless_alt)
qed

lemma step_loop_rows:
  assumes "0 < k" "k + length rows < 2 ^ 31"
  shows "step_loop (map (Pair SQLITE_ROW) rows @ rest) (of_nat k) out =
         step_loop rest (of_nat (k + length rows))
           (out @ concat (map (\<lambda>r. '','' @ print_row r) rows))"
  using assms
proof (induction rows arbitrary: k out)
  case Nil
  then show ?case by simp
next
  case (Cons r rows)
  from Cons.prems have pos: "0 <s (of_nat k :: 32 word)"
    by (intro row_count_positive) simp_all
  have "step_loop (map (Pair SQLITE_ROW) (r # rows) @ rest) (of_nat k) out =
        step_loop (map (Pair SQLITE_ROW) rows @ rest) (of_nat (Suc k)) (out @ '','' @ print_row r)"
    using pos by (simp add: add.commute)
  also have "\<dots> = step_loop rest (of_nat (Suc k + length rows))
      ((out @ '','' @ print_row r) @ concat (map (\<lambda>r. '','' @ print_row r) rows))"
    using Cons.prems by (intro Cons.IH) simp_all
  finally show ?case by simp
qed

lemma step_loop_all_rows:
  assumes "length rows < 2 ^ 31"
  shows "step_loop (map (Pair SQLITE_ROW) rows @ rest) 0 out =
         step_loop rest (of_nat (length rows)) (out @ comma_separated (map print_row rows))"
proof (cases rows)
  case Nil
  then show ?thesis by simp
next
  case (Cons r rs)
  have "step_loop (map (Pair SQLITE_ROW) rows @ rest) 0 out =
        step_loop (map (Pair SQLITE_ROW) rs @ rest) (of_nat 1) (out @ print_row r)"
    by (simp add: Cons)
  also have "\<dots> = step_loop rest (of_nat (1 + length rs))
      ((out @ print_row r) @ concat (map (\<lambda>r. '','' @ print_row r) rs))"
    using assms Cons by (intro step_loop_rows) simp_all
  finally show ?thesis
    by (simp add: Cons comma_separated_Cons comp_def)
qed

lemma step_loop_rc:
  assumes "rc \<noteq> SQLITE_ROW"
  shows "fst (step_loop (map (Pair SQLITE_ROW) rows @ (rc, r0) # rest) k out) = rc"
  using assms by (induction rows arbitrary: k out) simp_all

lemma step_loop_stop:
  assumes "length rows < 2 ^ 31" "rc \<noteq> SQLITE_ROW"
  shows "step_loop (map (Pair SQLITE_ROW) rows @ (rc, r0) # rest) 0 out =
         (rc, out @ comma_separated (map print_row rows))"
  using assms by (simp add: step_loop_all_rows)

lemma json_value_print_json_string: "json_value (print_json_string f)"
  by (rule json_string) (rule json_string_decode_print)

lemma json_key:
  \<open>json_string_decode ''"guid"'' = Some ''guid''\<close>
  \<open>json_string_decode ''"text"'' = Some ''text''\<close>
  \<open>json_string_decode ''"date_local"'' = Some ''date_local''\<close>
  by (simp_all add: json_string_decode_def)

lemma json_value_print_row: "json_value (print_row r)"
proof -
  have "json_members (''\"date_local\"'' @ '':'' @ print_json_string (date_local r))"
    by (rule json_member [OF json_key(3) json_value_print_json_string])
  then have "json_members (''\"text\"'' @ '':'' @ print_json_string (text r) @ '',''
      @ ''\"date_local\"'' @ '':'' @ print_json_string (date_local r))"
    by (rule json_more_members [OF json_key(2) json_value_print_json_string])
  then have "json_members (''\"guid\"'' @ '':'' @ print_json_string (guid r) @ '',''
      @ ''\"text\"'' @ '':'' @ print_json_string (text r) @ '',''
      @ ''\"date_local\"'' @ '':'' @ print_json_string (date_local r))"
    by (rule json_more_members [OF json_key(1) json_value_print_json_string])
  then have "json_value (''{'' @ (''\"guid\"'' @ '':'' @ print_json_string (guid r) @ '',''
      @ ''\"text\"'' @ '':'' @ print_json_string (text r) @ '',''
      @ ''\"date_local\"'' @ '':'' @ print_json_string (date_local r)) @ ''}'')"
    by (rule json_object)
  then show ?thesis by (simp add: print_row_def)
qed

lemma json_elements_comma_separated:
  assumes "xs \<noteq> []" "\<forall>x\<in>set xs. json_value x"
  shows "json_elements (comma_separated xs)"
  using assms
proof (induction xs rule: comma_separated.induct)
  case 1
  then show ?case by simp
next
  case (2 x)
  then show ?case by (simp add: json_element)
next
  case (3 x y ys)
  then have "json_value x" "json_elements (comma_separated (y # ys))" by simp_all
  then have "json_elements (x @ '','' @ comma_separated (y # ys))"
    by (rule json_more_elements)
  then show ?case by simp
qed

lemma json_value_array: "json_value (''['' @ comma_separated (map print_row rows) @ '']'')"
proof (cases rows)
  case Nil
  then show ?thesis by (simp add: json_empty_array)
next
  case (Cons r rs)
  then have "json_elements (comma_separated (map print_row rows))"
    by (intro json_elements_comma_separated) (simp_all add: json_value_print_row)
  then show ?thesis by (rule json_array)
qed

lemma main_query_steps:
  assumes "home_directory w = Some home"
    and "open_rc w (snprintf_db_path MAX_PATH home) = SQLITE_OK"
    and "prepare_rc w = SQLITE_OK"
    and "bind_rc w minutes = SQLITE_OK"
    and "step_loop (step_script w) 0 ''['' = (rc, out)"
  shows "main_query w minutes =
    (if rc \<noteq> SQLITE_DONE then
       \<lparr>stdout = out @ '']'' @ [CHR 0x0A],
        stderr = ''Error: query execution failed: '' @ c_str (errmsg w) @ [CHR 0x0A],
        exit_status = 1, opened = Some (snprintf_db_path MAX_PATH home)\<rparr>
     else
       \<lparr>stdout = out @ '']'' @ [CHR 0x0A], stderr = [],
        exit_status = 0, opened = Some (snprintf_db_path MAX_PATH home)\<rparr>)"
  using assms by (simp add: main_query_def)

lemma main_parsed:
  assumes "parse_arguments (case argv of [] \<Rightarrow> [] | p # _ \<Rightarrow> p) (drop 1 argv) DEFAULT_MINUTES
    = Minutes minutes"
  shows "main w argv = Some (main_query w minutes)"
  using assms by (simp add: main_def)

text \<open>
  Claim C3. When the arguments are accepted, the store opens, the statement is prepared
  and bound, and the engine delivers rows and then reports that it is done, standard
  output is \<^verbatim>\<open>[\<close>, the objects of the rows in order with one comma between neighbours
  and none after the last, \<^verbatim>\<open>]\<close> and a newline, and the exit status is 0. Each object has
  the keys \<^verbatim>\<open>guid\<close>, \<^verbatim>\<open>text\<close>, \<^verbatim>\<open>date_local\<close> in this order; the text before the
  newline is a JSON array by the grammar; with no row the output is \<^verbatim>\<open>[]\<close> and a
  newline. The number of rows is below \<open>2 ^ 31\<close>, the range of \<^verbatim>\<open>row_count\<close> (the query
  itself has \<^verbatim>\<open>LIMIT 50\<close>).
\<close>

theorem json_array_output:
  assumes "parse_arguments (case argv of [] \<Rightarrow> [] | p # _ \<Rightarrow> p) (drop 1 argv) DEFAULT_MINUTES
      = Minutes minutes"
    and "home_directory w = Some home"
    and "open_rc w (snprintf_db_path MAX_PATH home) = SQLITE_OK"
    and "prepare_rc w = SQLITE_OK"
    and "bind_rc w minutes = SQLITE_OK"
    and "step_script w = map (Pair SQLITE_ROW) rows @ (SQLITE_DONE, r0) # rest"
    and "length rows < 2 ^ 31"
  shows \<open>main w argv =
      Some \<lparr>stdout = ''['' @ comma_separated (map print_row rows) @ '']'' @ [CHR 0x0A],
            stderr = [], exit_status = 0, opened = Some (snprintf_db_path MAX_PATH home)\<rparr>
    \<and> json_value (''['' @ comma_separated (map print_row rows) @ '']'')
    \<and> (\<forall>r \<in> set rows. print_row r =
          ''{"guid":'' @ print_json_string (guid r) @ '',"text":'' @ print_json_string (text r)
          @ '',"date_local":'' @ print_json_string (date_local r) @ ''}'')
    \<and> (rows = [] \<longrightarrow> main w argv =
          Some \<lparr>stdout = ''[]'' @ [CHR 0x0A], stderr = [], exit_status = 0,
                opened = Some (snprintf_db_path MAX_PATH home)\<rparr>)\<close>
proof -
  have "SQLITE_DONE \<noteq> SQLITE_ROW"
    by (simp add: SQLITE_DONE_def SQLITE_ROW_def)
  with assms(7) have "step_loop (step_script w) 0 ''['' =
      (SQLITE_DONE, ''['' @ comma_separated (map print_row rows))"
    unfolding assms(6) by (rule step_loop_stop)
  with assms(2-5) have "main_query w minutes =
      \<lparr>stdout = ''['' @ comma_separated (map print_row rows) @ '']'' @ [CHR 0x0A],
       stderr = [], exit_status = 0, opened = Some (snprintf_db_path MAX_PATH home)\<rparr>"
    by (simp add: main_query_steps)
  with assms(1) have run: "main w argv =
      Some \<lparr>stdout = ''['' @ comma_separated (map print_row rows) @ '']'' @ [CHR 0x0A],
            stderr = [], exit_status = 0, opened = Some (snprintf_db_path MAX_PATH home)\<rparr>"
    by (simp add: main_parsed)
  then have empty: "rows = [] \<longrightarrow> main w argv =
          Some \<lparr>stdout = ''[]'' @ [CHR 0x0A], stderr = [], exit_status = 0,
                opened = Some (snprintf_db_path MAX_PATH home)\<rparr>"
    by simp
  from run json_value_array empty show ?thesis
    by (simp add: print_row_def)
qed

theorem json_array_output_witness:
  \<open>main \<lparr>env_HOME = Some ''/Users/me'', pw_dir = None, open_rc = (\<lambda>_. 0), prepare_rc = 0,
          bind_rc = (\<lambda>_. 0),
          step_script =
            [(100, \<lparr>guid = Some ''G1'', text = Some ''jarvis: hi'',
                    date_local = Some ''2024-01-01 10:00:00''\<rparr>),
             (100, \<lparr>guid = None, text = Some ''jarvis: go'', date_local = None\<rparr>),
             (101, \<lparr>guid = None, text = None, date_local = None\<rparr>)],
          errmsg = []\<rparr>
     [''imessage-reader'', ''--minutes'', ''5'']
   = Some \<lparr>stdout = ''[{"guid":"G1","text":"jarvis: hi","date_local":"2024-01-01 10:00:00"},''
                   @ ''{"guid":"","text":"jarvis: go","date_local":""}]'' @ [CHR 0x0A],
           stderr = [], exit_status = 0,
           opened = Some ''/Users/me/Library/Messages/chat.db''\<rparr>
   \<and> main \<lparr>env_HOME = None, pw_dir = Some ''/Users/me'', open_rc = (\<lambda>_. 0), prepare_rc = 0,
          bind_rc = (\<lambda>_. 0),
          step_script = [(101, \<lparr>guid = None, text = None, date_local = None\<rparr>)],
          errmsg = []\<rparr>
     [''imessage-reader'']
   = Some \<lparr>stdout = ''[]'' @ [CHR 0x0A], stderr = [], exit_status = 0,
           opened = Some ''/Users/me/Library/Messages/chat.db''\<rparr>\<close>
proof -
  let ?r1 = "\<lparr>guid = Some ''G1'', text = Some ''jarvis: hi'',
              date_local = Some ''2024-01-01 10:00:00''\<rparr>"
  let ?r2 = "\<lparr>guid = None, text = Some ''jarvis: go'', date_local = None\<rparr>"
  let ?r0 = "\<lparr>guid = None, text = None, date_local = None\<rparr>"
  let ?w1 = "\<lparr>env_HOME = Some ''/Users/me'', pw_dir = None, open_rc = (\<lambda>_. 0), prepare_rc = 0,
          bind_rc = (\<lambda>_. 0), step_script = [(100, ?r1), (100, ?r2), (101, ?r0)], errmsg = []\<rparr>"
  let ?w2 = "\<lparr>env_HOME = None, pw_dir = Some ''/Users/me'', open_rc = (\<lambda>_. 0), prepare_rc = 0,
          bind_rc = (\<lambda>_. 0), step_script = [(101, ?r0)], errmsg = []\<rparr>"
  have path: "snprintf_db_path MAX_PATH ''/Users/me'' = ''/Users/me/Library/Messages/chat.db''"
    by (simp add: snprintf_db_path_def MAX_PATH_def c_str_def)
  have p1: "parse_arguments (case [''imessage-reader'', ''--minutes'', ''5''] of [] \<Rightarrow> [] | p # _ \<Rightarrow> p)
      (drop 1 [''imessage-reader'', ''--minutes'', ''5'']) DEFAULT_MINUTES = Minutes 5"
    by code_simp
  have p2: "parse_arguments (case [''imessage-reader''] of [] \<Rightarrow> [] | p # _ \<Rightarrow> p)
      (drop 1 [''imessage-reader'']) DEFAULT_MINUTES = Minutes 20"
    by code_simp
  have a: "main ?w1 [''imessage-reader'', ''--minutes'', ''5''] =
      Some \<lparr>stdout = ''['' @ comma_separated (map print_row [?r1, ?r2]) @ '']'' @ [CHR 0x0A],
            stderr = [], exit_status = 0, opened = Some (snprintf_db_path MAX_PATH ''/Users/me'')\<rparr>"
    using json_array_output [of "[''imessage-reader'', ''--minutes'', ''5'']" 5 ?w1 "''/Users/me''"
        "[?r1, ?r2]" ?r0 "[]", OF p1]
    by (simp add: home_directory_def SQLITE_OK_def SQLITE_ROW_def SQLITE_DONE_def path)
  have b: "main ?w2 [''imessage-reader''] =
      Some \<lparr>stdout = ''[]'' @ [CHR 0x0A],
            stderr = [], exit_status = 0, opened = Some (snprintf_db_path MAX_PATH ''/Users/me'')\<rparr>"
    using json_array_output [of "[''imessage-reader'']" 20 ?w2 "''/Users/me''"
        "[]" ?r0 "[]", OF p2]
    by (simp add: home_directory_def SQLITE_OK_def SQLITE_ROW_def SQLITE_DONE_def path)
  from a b show ?thesis
    by (simp add: path print_row_def json_escape_def)
qed

text \<open>
  Claim C6. When a row fetch reports an engine error (a result code that is neither
  \<^verbatim>\<open>SQLITE_ROW\<close> nor \<^verbatim>\<open>SQLITE_DONE\<close>) after any number of rows, the run ends with the
  line \<^verbatim>\<open>Error: query execution failed: ...\<close> on standard error and with exit status 1.
\<close>

theorem mid_stream_error_exit:
  assumes "parse_arguments (case argv of [] \<Rightarrow> [] | p # _ \<Rightarrow> p) (drop 1 argv) DEFAULT_MINUTES
      = Minutes minutes"
    and "home_directory w = Some home"
    and "open_rc w (snprintf_db_path MAX_PATH home) = SQLITE_OK"
    and "prepare_rc w = SQLITE_OK"
    and "bind_rc w minutes = SQLITE_OK"
    and "step_script w = map (Pair SQLITE_ROW) rows @ (rc, r0) # rest"
    and "rc \<noteq> SQLITE_ROW" and "rc \<noteq> SQLITE_DONE"
  shows "\<exists>res. main w argv = Some res
      \<and> stderr res = ''Error: query execution failed: '' @ c_str (errmsg w) @ [CHR 0x0A]
      \<and> stderr res \<noteq> []
      \<and> exit_status res = 1
      \<and> exit_status res \<noteq> 0"
proof -
  obtain out where "step_loop (step_script w) 0 ''['' = (rc, out)"
    using step_loop_rc [OF assms(7), of rows r0 rest 0 "''[''"] assms(6)
    by (cases "step_loop (step_script w) 0 ''[''") simp
  with assms(2-5,8) have "main_query w minutes =
      \<lparr>stdout = out @ '']'' @ [CHR 0x0A],
       stderr = ''Error: query execution failed: '' @ c_str (errmsg w) @ [CHR 0x0A],
       exit_status = 1, opened = Some (snprintf_db_path MAX_PATH home)\<rparr>"
    by (simp add: main_query_steps)
  with assms(1) show ?thesis
    by (simp add: main_parsed)
qed

theorem mid_stream_error_exit_witness:
  "\<exists>res. main \<lparr>env_HOME = Some ''/Users/me'', pw_dir = None, open_rc = (\<lambda>_. 0), prepare_rc = 0,
          bind_rc = (\<lambda>_. 0),
          step_script =
            [(100, \<lparr>guid = Some ''G1'', text = Some ''jarvis: hi'', date_local = Some ''2024''\<rparr>),
             (10, \<lparr>guid = None, text = None, date_local = None\<rparr>)],
          errmsg = ''disk I/O error''\<rparr>
       [''imessage-reader''] = Some res
     \<and> stderr res = ''Error: query execution failed: disk I/O error'' @ [CHR 0x0A]
     \<and> exit_status res = 1"
proof -
  let ?r1 = "\<lparr>guid = Some ''G1'', text = Some ''jarvis: hi'', date_local = Some ''2024''\<rparr>"
  let ?r0 = "\<lparr>guid = None, text = None, date_local = None\<rparr>"
  let ?w = "\<lparr>env_HOME = Some ''/Users/me'', pw_dir = None, open_rc = (\<lambda>_. 0), prepare_rc = 0,
          bind_rc = (\<lambda>_. 0), step_script = [(100, ?r1), (10, ?r0)], errmsg = ''disk I/O error''\<rparr>"
  have p: "parse_arguments (case [''imessage-reader''] of [] \<Rightarrow> [] | p # _ \<Rightarrow> p)
      (drop 1 [''imessage-reader'']) DEFAULT_MINUTES = Minutes 20"
    by code_simp
  have "\<exists>res. main ?w [''imessage-reader''] = Some res
      \<and> stderr res = ''Error: query execution failed: disk I/O error'' @ [CHR 0x0A]
      \<and> stderr res \<noteq> []
      \<and> exit_status res = 1
      \<and> exit_status res \<noteq> 0"
    using mid_stream_error_exit [of "[''imessage-reader'']" 20 ?w "''/Users/me''" "[?r1]" 10 ?r0 "[]",
        OF p]
    by (simp add: home_directory_def SQLITE_OK_def SQLITE_ROW_def SQLITE_DONE_def c_str_def)
  then show ?thesis by blast
qed

text \<open>
  Claim C8. On that same path the closing \<^verbatim>\<open>]\<close> and the newline are written before the
  result code is looked at: standard output is the complete array of the rows fetched
  before the error, and the exit status is 1.
\<close>

theorem closing_bracket_on_error:
  assumes "parse_arguments (case argv of [] \<Rightarrow> [] | p # _ \<Rightarrow> p) (drop 1 argv) DEFAULT_MINUTES
      = Minutes minutes"
    and "home_directory w = Some home"
    and "open_rc w (snprintf_db_path MAX_PATH home) = SQLITE_OK"
    and "prepare_rc w = SQLITE_OK"
    and "bind_rc w minutes = SQLITE_OK"
    and "step_script w = map (Pair SQLITE_ROW) rows @ (rc, r0) # rest"
    and "rc \<noteq> SQLITE_ROW" and "rc \<noteq> SQLITE_DONE"
    and "length rows < 2 ^ 31"
  shows "main w argv =
      Some \<lparr>stdout = ''['' @ comma_separated (map print_row rows) @ '']'' @ [CHR 0x0A],
            stderr = ''Error: query execution failed: '' @ c_str (errmsg w) @ [CHR 0x0A],
            exit_status = 1, opened = Some (snprintf_db_path MAX_PATH home)\<rparr>
    \<and> json_value (''['' @ comma_separated (map print_row rows) @ '']'')"
proof -
  from assms(9,7) have "step_loop (step_script w) 0 ''['' =
      (rc, ''['' @ comma_separated (map print_row rows))"
    unfolding assms(6) by (rule step_loop_stop)
  with assms(2-5,8) have "main_query w minutes =
      \<lparr>stdout = ''['' @ comma_separated (map print_row rows) @ '']'' @ [CHR 0x0A],
       stderr = ''Error: query execution failed: '' @ c_str (errmsg w) @ [CHR 0x0A],
       exit_status = 1, opened = Some (snprintf_db_path MAX_PATH home)\<rparr>"
    by (simp add: main_query_steps)
  with assms(1) json_value_array show ?thesis
    by (simp add: main_parsed)
qed

theorem closing_bracket_on_error_witness:
  \<open>main \<lparr>env_HOME = Some ''/Users/me'', pw_dir = None, open_rc = (\<lambda>_. 0), prepare_rc = 0,
          bind_rc = (\<lambda>_. 0),
          step_script =
            [(100, \<lparr>guid = Some ''G1'', text = Some ''jarvis: hi'', date_local = Some ''2024''\<rparr>),
             (10, \<lparr>guid = None, text = None, date_local = None\<rparr>)],
          errmsg = ''disk I/O error''\<rparr>
       [''imessage-reader'']
   = Some \<lparr>stdout = ''[{"guid":"G1","text":"jarvis: hi","date_local":"2024"}]'' @ [CHR 0x0A],
           stderr = ''Error: query execution failed: disk I/O error'' @ [CHR 0x0A],
           exit_status = 1, opened = Some ''/Users/me/Library/Messages/chat.db''\<rparr>\<close>
proof -
  let ?r1 = "\<lparr>guid = Some ''G1'', text = Some ''jarvis: hi'', date_local = Some ''2024''\<rparr>"
  let ?r0 = "\<lparr>guid = None, text = None, date_local = None\<rparr>"
  let ?w = "\<lparr>env_HOME = Some ''/Users/me'', pw_dir = None, open_rc = (\<lambda>_. 0), prepare_rc = 0,
          bind_rc = (\<lambda>_. 0), step_script = [(100, ?r1), (10, ?r0)], errmsg = ''disk I/O error''\<rparr>"
  have path: "snprintf_db_path MAX_PATH ''/Users/me'' = ''/Users/me/Library/Messages/chat.db''"
    by (simp add: snprintf_db_path_def MAX_PATH_def c_str_def)
  have p: "parse_arguments (case [''imessage-reader''] of [] \<Rightarrow> [] | p # _ \<Rightarrow> p)
      (drop 1 [''imessage-reader'']) DEFAULT_MINUTES = Minutes 20"
    by code_simp
  have "main ?w [''imessage-reader''] =
      Some \<lparr>stdout = ''['' @ comma_separated (map print_row [?r1]) @ '']'' @ [CHR 0x0A],
            stderr = ''Error: query execution failed: '' @ c_str (errmsg ?w) @ [CHR 0x0A],
            exit_status = 1, opened = Some (snprintf_db_path MAX_PATH ''/Users/me'')\<rparr>"
    using closing_bracket_on_error [of "[''imessage-reader'']" 20 ?w "''/Users/me''" "[?r1]" 10 ?r0 "[]",
        OF p]
    by (simp add: home_directory_def SQLITE_OK_def SQLITE_ROW_def SQLITE_DONE_def path)
  then show ?thesis
    by (simp add: path print_row_def json_escape_def c_str_def)
qed

subsection \<open>The command line\<close>

declare decimal_of.simps [simp del]

lemma digit_char:
  assumes "d < 10"
  shows "isdigit (char_of (48 + d))"
    and "digit_value (char_of (48 + d)) = int d"
    and "\<not> isspace (char_of (48 + d))"
    and "char_of (48 + d) \<noteq> CHR ''-''"
    and "char_of (48 + d) \<noteq> CHR ''+''"
proof -
  have "d = 0 \<or> d = 1 \<or> d = 2 \<or> d = 3 \<or> d = 4 \<or> d = 5 \<or> d = 6 \<or> d = 7 \<or> d = 8 \<or> d = 9"
    using assms by arith
  then have "isdigit (char_of (48 + d)) \<and> digit_value (char_of (48 + d)) = int d
    \<and> \<not> isspace (char_of (48 + d)) \<and> char_of (48 + d) \<noteq> CHR ''-''
    \<and> char_of (48 + d) \<noteq> CHR ''+''"
    by (elim disjE; hypsubst; code_simp)
  then show "isdigit (char_of (48 + d))"
    and "digit_value (char_of (48 + d)) = int d"
    and "\<not> isspace (char_of (48 + d))"
    and "char_of (48 + d) \<noteq> CHR ''-''"
    and "char_of (48 + d) \<noteq> CHR ''+''"
    by simp_all
qed

lemma digits_value_decimal_of:
  "digits_value (decimal_of n @ rest) acc =
     digits_value rest (acc * 10 ^ length (decimal_of n) + int n)"
proof (induction n arbitrary: rest acc rule: decimal_of.induct)
  case (1 n)
  show ?case
  proof (cases "n < 10")
    case True
    then show ?thesis
      by (simp add: decimal_of.simps [of n] digit_char)
  next
    case False
    have d: "n mod 10 < 10" by simp
    have "digits_value (decimal_of n @ rest) acc =
        digits_value ([char_of (48 + n mod 10)] @ rest)
          (acc * 10 ^ length (decimal_of (n div 10)) + int (n div 10))"
      using False by (simp add: decimal_of.simps [of n] "1.IH")
    also have "\<dots> = digits_value rest
        ((acc * 10 ^ length (decimal_of (n div 10)) + int (n div 10)) * 10 + int (n mod 10))"
      using d by (simp add: digit_char )
    also have "(acc * 10 ^ length (decimal_of (n div 10)) + int (n div 10)) * 10 + int (n mod 10)
        = acc * 10 ^ length (decimal_of n) + int n"
    proof -
      have "int (n div 10) * 10 + int (n mod 10) = int n"
        by presburger
      moreover have "length (decimal_of n) = Suc (length (decimal_of (n div 10)))"
        using False by (simp add: decimal_of.simps [of n])
      ultimately show ?thesis by (simp add: algebra_simps)
    qed
    finally show ?thesis .
  qed
qed

lemma decimal_of_first:
  "\<exists>d ds. decimal_of n = char_of (48 + d) # ds \<and> d < (10::nat)"
proof (induction n rule: decimal_of.induct)
  case (1 n)
  show ?case
  proof (cases "n < 10")
    case True
    then have "decimal_of n = char_of (48 + n) # [] \<and> n < 10"
      by (simp add: decimal_of.simps [of n])
    then show ?thesis by blast
  next
    case False
    with "1.IH" obtain d ds where "decimal_of (n div 10) = char_of (48 + d) # ds" "d < (10::nat)"
      by blast
    with False have "decimal_of n = char_of (48 + d) # (ds @ [char_of (48 + n mod 10)]) \<and> d < 10"
      by (simp add: decimal_of.simps [of n])
    then show ?thesis by blast
  qed
qed

lemma strtol_value_decimal_of: "strtol_value (decimal_of n) = int n"
proof -
  obtain d ds where f: "decimal_of n = char_of (48 + d) # ds" "d < (10::nat)"
    using decimal_of_first by blast
  then have "strtol_value (decimal_of n) = digits_value (decimal_of n) 0"
    by (simp add: strtol_value_def digit_char)
  also have "\<dots> = int n"
    using digits_value_decimal_of [of n "[]" 0] by simp
  finally show ?thesis .
qed

lemma atoi_decimal_of: "int n \<le> INT_MAX \<Longrightarrow> atoi (decimal_of n) = Some (int n)"
  by (simp add: atoi_def strtol_value_decimal_of INT_MIN_def)

lemma strcmp_minutes: "strcmp_eq ''--minutes'' ''--minutes''"
  by (simp add: strcmp_eq_def)

lemma parse_minutes_flag:
  "parse_arguments prog (''--minutes'' # v # rest) m0 =
     (case atoi v of
        None \<Rightarrow> Undefined_behaviour
      | Some m \<Rightarrow>
          if m \<le> 0 then Exit_1 (''Error: minutes must be a positive integer'' @ [CHR 0x0A])
          else parse_arguments prog rest m)"
  by (simp add: strcmp_minutes)






lemma atoi_in_range:
  assumes "0 < strtol_value v" "strtol_value v \<le> INT_MAX"
  shows "atoi v = Some (strtol_value v)"
  using assms by (simp add: atoi_def INT_MIN_def)

lemma parse_repeated:
  assumes "\<forall>v\<in>set vs. 0 < strtol_value v \<and> strtol_value v \<le> INT_MAX"
  shows "parse_arguments prog (concat (map (\<lambda>v. [''--minutes'', v]) vs)) m0 =
         Minutes (if vs = [] then m0 else strtol_value (last vs))"
  using assms
proof (induction vs arbitrary: m0)
  case Nil
  then show ?case by simp
next
  case (Cons v vs)
  then have "atoi v = Some (strtol_value v)" "\<not> strtol_value v \<le> 0"
    by (simp_all add: atoi_in_range)
  then have "parse_arguments prog (concat (map (\<lambda>v. [''--minutes'', v]) (v # vs))) m0 =
      parse_arguments prog (concat (map (\<lambda>v. [''--minutes'', v]) vs)) (strtol_value v)"
    by (simp add: strcmp_minutes)
  also have "\<dots> = Minutes (if vs = [] then strtol_value v else strtol_value (last vs))"
    using Cons.prems by (intro Cons.IH) simp
  finally show ?case by simp
qed

text \<open>
  Claim C9, as amended. For an argument list that is \<^verbatim>\<open>--minutes N\<close> repeated one or more
  times, where the integer \<^verbatim>\<open>atoi\<close> reads from each \<^verbatim>\<open>N\<close> is positive and at most
  2147483647, the arguments are accepted and the lookback the query is run with is the
  integer of the last repetition.
\<close>

theorem repeated_minutes_flag:
  assumes "vs \<noteq> []"
    and "\<forall>v\<in>set vs. 0 < strtol_value v \<and> strtol_value v \<le> INT_MAX"
  shows "parse_arguments prog (concat (map (\<lambda>v. [''--minutes'', v]) vs)) DEFAULT_MINUTES
           = Minutes (strtol_value (last vs))
       \<and> main w (prog # concat (map (\<lambda>v. [''--minutes'', v]) vs))
           = Some (main_query w (strtol_value (last vs)))"
  using assms by (simp add: parse_repeated main_def)

theorem repeated_minutes_flag_witness:
  "parse_arguments ''imessage-reader'' [''--minutes'', ''5'', ''--minutes'', ''30min'', ''--minutes'', '' +7'']
     DEFAULT_MINUTES = Minutes 7"
proof -
  have v: "strtol_value ''5'' = 5" "strtol_value ''30min'' = 30" "strtol_value '' +7'' = 7"
    by code_simp+
  have "[''5'', ''30min'', '' +7''] \<noteq> []
      \<and> (\<forall>v\<in>set [''5'', ''30min'', '' +7'']. 0 < strtol_value v \<and> strtol_value v \<le> INT_MAX)"
    by (simp add: v INT_MAX_def)
  with repeated_minutes_flag [of "[''5'', ''30min'', '' +7'']" "''imessage-reader''"]
  show ?thesis by (simp add: v)
qed

text \<open>
  The claim as stated fails when an integer prefix is positive but does not fit an
  \<^verbatim>\<open>int\<close>: \<^verbatim>\<open>atoi\<close> of 2147483648 is undefined, and no \<^verbatim>\<open>int\<close> holds that value.
\<close>

theorem repeated_minutes_flag_counterexample:
  "0 < strtol_value ''5'' \<and> 0 < strtol_value ''2147483648''
   \<and> parse_arguments ''imessage-reader'' [''--minutes'', ''5'', ''--minutes'', ''2147483648'']
        DEFAULT_MINUTES = Undefined_behaviour
   \<and> parse_arguments ''imessage-reader'' [''--minutes'', ''5'', ''--minutes'', ''2147483648'']
        DEFAULT_MINUTES \<noteq> Minutes (strtol_value ''2147483648'')"
proof -
  have v: "strtol_value ''5'' = 5" "strtol_value ''2147483648'' = 2147483648"
    by code_simp+
  have a: "atoi ''5'' = Some 5" "atoi ''2147483648'' = None"
    by (simp_all add: atoi_def v INT_MIN_def INT_MAX_def)
  show ?thesis
    by (simp add: v a strcmp_minutes)
qed

subsection \<open>The path of the message store\<close>

lemma snprintf_db_path_length: "length (snprintf_db_path MAX_PATH home) \<le> 1023"
  by (simp add: snprintf_db_path_def MAX_PATH_def)

lemma main_query_opened:
  assumes "home_directory w = Some home"
  shows "opened (main_query w minutes) = Some (snprintf_db_path MAX_PATH home)"
  using assms by (simp add: main_query_def Let_def split: prod.split)

text \<open>
  Claim C10. Whatever the home directory is, the path \<^verbatim>\<open>snprintf\<close> leaves in the
  1024-byte buffer is the first 1023 bytes of the home directory followed by
  \<^verbatim>\<open>/Library/Messages/chat.db\<close>, so with its NUL it fits the buffer, and this is the path
  handed to \<^verbatim>\<open>sqlite3_open_v2\<close>. When the full text is longer than 1023 bytes the path is
  cut to exactly 1023 bytes and differs from the full text; \<^verbatim>\<open>main\<close> has no error for
  this: the run depends only on what the engine answers for the cut path, ending with
  the open error if the engine refuses it and going on to the query if it accepts it.
\<close>

theorem db_path_silently_truncated:
  assumes "home_directory w = Some home"
  shows "snprintf_db_path MAX_PATH home = take 1023 (c_str home @ ''/Library/Messages/chat.db'')
    \<and> length (snprintf_db_path MAX_PATH home) \<le> 1023
    \<and> opened (main_query w minutes) = Some (take 1023 (c_str home @ ''/Library/Messages/chat.db''))
    \<and> (1023 < length (c_str home @ ''/Library/Messages/chat.db'') \<longrightarrow>
          length (snprintf_db_path MAX_PATH home) = 1023
        \<and> snprintf_db_path MAX_PATH home \<noteq> c_str home @ ''/Library/Messages/chat.db''
        \<and> (open_rc w (take 1023 (c_str home @ ''/Library/Messages/chat.db'')) \<noteq> SQLITE_OK \<longrightarrow>
              main_query w minutes =
                \<lparr>stdout = [],
                 stderr = ''Error: cannot open ''
                   @ take 1023 (c_str home @ ''/Library/Messages/chat.db'')
                   @ '': '' @ c_str (errmsg w) @ [CHR 0x0A],
                 exit_status = 1,
                 opened = Some (take 1023 (c_str home @ ''/Library/Messages/chat.db''))\<rparr>)
        \<and> (open_rc w (take 1023 (c_str home @ ''/Library/Messages/chat.db'')) = SQLITE_OK
             \<and> prepare_rc w = SQLITE_OK \<and> bind_rc w minutes = SQLITE_OK \<and> step_script w = [] \<longrightarrow>
              main_query w minutes =
                \<lparr>stdout = ''[]'' @ [CHR 0x0A], stderr = [], exit_status = 0,
                 opened = Some (take 1023 (c_str home @ ''/Library/Messages/chat.db''))\<rparr>))"
proof -
  let ?full = "c_str home @ ''/Library/Messages/chat.db''"
  have path: "snprintf_db_path MAX_PATH home = take 1023 ?full"
    by (simp add: snprintf_db_path_def MAX_PATH_def)
  have len: "length (snprintf_db_path MAX_PATH home) \<le> 1023"
    by (rule snprintf_db_path_length)
  have op: "opened (main_query w minutes) = Some (take 1023 ?full)"
    using main_query_opened [OF assms] path by simp
  have cut: "length (snprintf_db_path MAX_PATH home) = 1023
      \<and> snprintf_db_path MAX_PATH home \<noteq> ?full" if "1023 < length ?full"
  proof -
    from that have l: "length (take 1023 ?full) = 1023" by simp
    then have "take 1023 ?full \<noteq> ?full" using that by (metis less_irrefl)
    with l path show ?thesis by simp
  qed
  have fail: "main_query w minutes =
      \<lparr>stdout = [],
       stderr = ''Error: cannot open '' @ take 1023 ?full @ '': '' @ c_str (errmsg w) @ [CHR 0x0A],
       exit_status = 1, opened = Some (take 1023 ?full)\<rparr>"
    if "open_rc w (take 1023 ?full) \<noteq> SQLITE_OK"
    using that assms path by (simp add: main_query_def)
  have run: "main_query w minutes =
      \<lparr>stdout = ''[]'' @ [CHR 0x0A], stderr = [], exit_status = 0,
       opened = Some (take 1023 ?full)\<rparr>"
    if "open_rc w (take 1023 ?full) = SQLITE_OK \<and> prepare_rc w = SQLITE_OK
        \<and> bind_rc w minutes = SQLITE_OK \<and> step_script w = []"
    using that assms path by (simp add: main_query_def)
  from path len op cut fail run show ?thesis by blast
qed

theorem db_path_silently_truncated_witness:
  "main_query \<lparr>env_HOME = Some (replicate 1010 CHR ''a''), pw_dir = None,
                open_rc = (\<lambda>_. 0), prepare_rc = 0, bind_rc = (\<lambda>_. 0), step_script = [],
                errmsg = []\<rparr> 20
     = \<lparr>stdout = ''[]'' @ [CHR 0x0A], stderr = [], exit_status = 0,
        opened = Some (replicate 1010 CHR ''a'' @ ''/Library/Mess'')\<rparr>
   \<and> main_query \<lparr>env_HOME = Some (replicate 1010 CHR ''a''), pw_dir = None,
                open_rc = (\<lambda>_. 14), prepare_rc = 0, bind_rc = (\<lambda>_. 0), step_script = [],
                errmsg = ''unable to open database file''\<rparr> 20
     = \<lparr>stdout = [],
        stderr = ''Error: cannot open '' @ replicate 1010 CHR ''a'' @ ''/Library/Mess''
                 @ '': unable to open database file'' @ [CHR 0x0A],
        exit_status = 1,
        opened = Some (replicate 1010 CHR ''a'' @ ''/Library/Mess'')\<rparr>"
proof -
  let ?home = "replicate 1010 CHR ''a''"
  let ?w1 = "\<lparr>env_HOME = Some ?home, pw_dir = None,
                open_rc = (\<lambda>_. 0), prepare_rc = 0, bind_rc = (\<lambda>_. 0), step_script = [],
                errmsg = []\<rparr>"
  let ?w2 = "\<lparr>env_HOME = Some ?home, pw_dir = None,
                open_rc = (\<lambda>_. 14), prepare_rc = 0, bind_rc = (\<lambda>_. 0), step_script = [],
                errmsg = ''unable to open database file''\<rparr>"
  have c: "c_str ?home = ?home"
    by (simp add: c_str_def takeWhile_replicate)
  have t: "take 1023 (c_str ?home @ ''/Library/Messages/chat.db'') = ?home @ ''/Library/Mess''"
    by (simp add: c)
  have long: "1023 < length (c_str ?home @ ''/Library/Messages/chat.db'')"
    by (simp add: c)
  have h1: "home_directory ?w1 = Some ?home" and h2: "home_directory ?w2 = Some ?home"
    by (simp_all add: home_directory_def)
  from db_path_silently_truncated [OF h1, of 20] long
  have a: "main_query ?w1 20 =
      \<lparr>stdout = ''[]'' @ [CHR 0x0A], stderr = [], exit_status = 0,
       opened = Some (?home @ ''/Library/Mess'')\<rparr>"
    unfolding t by (simp add: SQLITE_OK_def)
  from db_path_silently_truncated [OF h2, of 20] long
  have b: "main_query ?w2 20 =
      \<lparr>stdout = [],
       stderr = ''Error: cannot open '' @ ?home @ ''/Library/Mess''
                 @ '': unable to open database file'' @ [CHR 0x0A],
       exit_status = 1, opened = Some (?home @ ''/Library/Mess'')\<rparr>"
    unfolding t by (simp add: SQLITE_OK_def c_str_def)
  from a b show ?thesis by blast
qed

subsection \<open>The time window of the query\<close>

declare bit_length.simps [simp del]

lemma bit_length_0: "bit_length 0 = 0"
  by (simp add: bit_length.simps [of 0])

lemma bit_length_le: "n < 2 ^ k \<Longrightarrow> bit_length n \<le> k"
proof (induction n arbitrary: k rule: bit_length.induct)
  case (1 n)
  show ?case
  proof (cases "n = 0")
    case True
    then show ?thesis by (simp add: bit_length_0)
  next
    case False
    with "1.prems" obtain j where k: "k = Suc j" by (cases k) auto
    with "1.prems" have "n div 2 < 2 ^ j" by simp
    with "1.IH" [OF False] have "bit_length (n div 2) \<le> j" by simp
    with False k show ?thesis by (simp add: bit_length.simps [of n])
  qed
qed

lemma bit_length_lower: "0 < n \<Longrightarrow> 2 ^ (bit_length n - 1) \<le> n"
proof (induction n rule: bit_length.induct)
  case (1 n)
  show ?case
  proof (cases "n div 2 = 0")
    case True
    with "1.prems" have "bit_length n = 1"
      by (simp add: bit_length.simps [of n] bit_length_0)
    with "1.prems" show ?thesis by simp
  next
    case False
    with "1.IH" "1.prems" have "2 ^ (bit_length (n div 2) - 1) \<le> n div 2" by simp
    moreover have "0 < bit_length (n div 2)"
      using False by (simp add: bit_length.simps [of "n div 2"])
    moreover have "bit_length n = Suc (bit_length (n div 2))"
      using "1.prems" by (simp add: bit_length.simps [of n])
    ultimately have "2 ^ (bit_length n - 1) \<le> 2 * (n div 2)"
      by (cases "bit_length (n div 2)") simp_all
    also have "\<dots> \<le> n" by simp
    finally show ?thesis .
  qed
qed

lemma bit_length_gt: "2 ^ k \<le> n \<Longrightarrow> k < bit_length n"
proof (rule ccontr)
  assume a: "2 ^ k \<le> n" and "\<not> k < bit_length n"
  then have "bit_length n \<le> k" by simp
  moreover have "n < 2 ^ bit_length n"
  proof (induction n rule: bit_length.induct)
    case (1 n)
    show ?case
    proof (cases "n = 0")
      case True
      then show ?thesis by (simp add: bit_length_0)
    next
      case False
      with "1.IH" have "n div 2 < 2 ^ bit_length (n div 2)" by simp
      then have "n < 2 * 2 ^ bit_length (n div 2)" by simp
      with False show ?thesis by (simp add: bit_length.simps [of n])
    qed
  qed
  ultimately have "n < 2 ^ k"
    by (meson less_le_trans one_le_numeral power_increasing)
  with a show False by simp
qed

lemma round_to_double_small:
  assumes "\<bar>x\<bar> < 2 ^ 53"
  shows "round_to_double x = x"
proof -
  from assms have "nat \<bar>x\<bar> < 2 ^ 53" by simp
  then have "bit_length (nat \<bar>x\<bar>) - 53 = 0"
    using bit_length_le [of "nat \<bar>x\<bar>" 53] by simp
  then show ?thesis
    by (simp add: round_to_double_def Let_def mult_sgn_abs)
qed

lemma round_magnitude:
  fixes a :: nat
  assumes "2 ^ 63 + 2048 \<le> a"
  shows "2 ^ 63 + 2048 \<le> (a div 2 ^ (bit_length a - 53)) * 2 ^ (bit_length a - 53)"
proof -
  let ?e = "bit_length a - 53"
  have "(2::nat) ^ 63 \<le> a" using assms by simp
  then have "63 < bit_length a" by (rule bit_length_gt)
  then have e11: "11 \<le> ?e" by simp
  show ?thesis
  proof (cases "?e = 11")
    case True
    have "(2 ^ 63 + 2048) div 2048 \<le> a div 2048"
      using assms by (rule div_le_mono)
    then have "(2 ^ 52 + 1) * 2048 \<le> a div 2048 * 2048"
      by simp
    then have "2 ^ 63 + 2048 \<le> a div 2 ^ 11 * 2 ^ 11"
      by simp
    then show ?thesis by (simp only: True)
  next
    case False
    with e11 have e12: "12 \<le> ?e" by simp
    have "0 < a" using assms by simp
    then have lower: "2 ^ (bit_length a - 1) \<le> a" by (rule bit_length_lower)
    have eq: "bit_length a - 1 = ?e + 52" using e12 by arith
    from lower have "2 ^ (?e + 52) \<le> a" by (simp only: eq)
    then have "2 ^ (?e + 52) div 2 ^ ?e \<le> a div 2 ^ ?e" by (rule div_le_mono)
    then have "2 ^ 52 \<le> a div 2 ^ ?e" by (simp add: power_add)
    then have a1: "2 ^ 52 * 2 ^ ?e \<le> a div 2 ^ ?e * 2 ^ ?e" by (rule mult_le_mono1)
    have "(2::nat) ^ 12 \<le> 2 ^ ?e" using e12 by (intro power_increasing) simp_all
    then have a2: "(2::nat) ^ 52 * 2 ^ 12 \<le> 2 ^ 52 * 2 ^ ?e" by (rule mult_le_mono2)
    have a3: "(2::nat) ^ 63 + 2048 \<le> 2 ^ 52 * 2 ^ 12" by simp
    from a3 a2 a1 show ?thesis by (rule le_trans [OF le_trans])
  qed
qed

lemma round_to_double_magnitude:
  assumes "2 ^ 63 + 2048 \<le> \<bar>x\<bar>"
  shows "round_to_double x = sgn x * \<bar>round_to_double x\<bar>"
    and "2 ^ 63 + 2048 \<le> \<bar>round_to_double x\<bar>"
proof -
  let ?a = "nat \<bar>x\<bar>"
  let ?e = "bit_length ?a - 53"
  let ?q = "?a div 2 ^ ?e"
  let ?q' = "if 2 ^ ?e < 2 * (?a mod 2 ^ ?e) \<or> (2 * (?a mod 2 ^ ?e) = 2 ^ ?e \<and> odd ?q)
             then ?q + 1 else ?q"
  have r: "round_to_double x = sgn x * int (?q' * 2 ^ ?e)"
    by (simp add: round_to_double_def Let_def)
  have "2 ^ 63 + 2048 \<le> ?a" using assms by (simp add: le_nat_iff)
  then have "2 ^ 63 + 2048 \<le> ?q * 2 ^ ?e" by (rule round_magnitude)
  also have "\<dots> \<le> ?q' * 2 ^ ?e" by simp
  finally have "int (2 ^ 63 + 2048) \<le> int (?q' * 2 ^ ?e)"
    by (simp only: of_nat_le_iff)
  then have m: "2 ^ 63 + 2048 \<le> int (?q' * 2 ^ ?e)"
    by (simp only: of_nat_add of_nat_power of_nat_numeral)
  have nz: "x \<noteq> 0" using assms by auto
  then have ab: "\<bar>round_to_double x\<bar> = int (?q' * 2 ^ ?e)"
    unfolding r by (simp add: abs_mult abs_sgn_eq del: of_nat_mult of_nat_power)
  show "round_to_double x = sgn x * \<bar>round_to_double x\<bar>"
    unfolding ab by (rule r)
  show "2 ^ 63 + 2048 \<le> \<bar>round_to_double x\<bar>"
    unfolding ab by (rule m)
qed

lemma round_to_double_below:
  assumes "x \<le> - (2 ^ 63 + 2048)"
  shows "round_to_double x \<le> - (2 ^ 63 + 2048)"
proof -
  from assms have "2 ^ 63 + 2048 \<le> \<bar>x\<bar>" "sgn x = - 1" by simp_all
  with round_to_double_magnitude [of x] show ?thesis by simp
qed

lemma round_to_double_above:
  assumes "2 ^ 63 + 2048 \<le> x"
  shows "2 ^ 63 + 2048 \<le> round_to_double x"
proof -
  from assms have "2 ^ 63 + 2048 \<le> \<bar>x\<bar>" "sgn x = 1" by simp_all
  with round_to_double_magnitude [of x] show ?thesis by simp
qed

lemma bit_length_eq:
  assumes "2 ^ k \<le> n" "n < 2 ^ Suc k"
  shows "bit_length n = Suc k"
  using bit_length_gt [OF assms(1)] bit_length_le [OF assms(2)] by simp

lemma date_threshold_value:
  assumes "0 < minutes" "minutes \<le> INT_MAX" "clock now"
  shows "date_threshold now minutes =
    (if int64 ((now - 978307200 - minutes * 60) * 1000000000)
     then Integer ((now - 978307200 - minutes * 60) * 1000000000)
     else Real (round_to_double ((now - 978307200 - minutes * 60) * 1000000000)))"
proof -
  let ?c = "now - 978307200 - minutes * 60"
  from assms have b: "- 62167219200 \<le> now" "now \<le> 253402300799" "minutes \<le> 2147483647"
    by (simp_all add: clock_def INT_MAX_def)
  have s1: "sql_sub (Integer now) (Integer 978307200) = Integer (now - 978307200)"
    using b by (simp add: int64_def INT64_MIN_def INT64_MAX_def)
  have s2: "sql_mul (Integer minutes) (Integer 60) = Integer (minutes * 60)"
    using b assms(1) by (simp add: int64_def INT64_MIN_def INT64_MAX_def)
  have s3: "sql_sub (Integer (now - 978307200)) (Integer (minutes * 60)) = Integer ?c"
    using b assms(1) by (simp add: int64_def INT64_MIN_def INT64_MAX_def)
  have "\<bar>?c\<bar> < 2 ^ 53" using b assms(1) by simp
  then have rc: "round_to_double ?c = ?c" by (rule round_to_double_small)
  have r9: "round_to_double 1000000000 = 1000000000"
    by (rule round_to_double_small) simp
  show ?thesis
    unfolding date_threshold_def s1 s2 s3
    by (simp add: rc r9)
qed

lemma outside_int64:
  fixes c :: int
  assumes "\<not> int64 (c * 1000000000)"
  shows "c * 1000000000 \<le> - (2 ^ 63 + 2048) \<or> 2 ^ 63 + 2048 \<le> c * 1000000000"
proof -
  from assms have "c * 1000000000 < - 9223372036854775808 \<or> 9223372036854775807 < c * 1000000000"
    by (simp add: int64_def INT64_MIN_def INT64_MAX_def) arith
  then have "c \<le> - 9223372037 \<or> 9223372037 \<le> c" by arith
  then show ?thesis by auto
qed

lemma threshold_comparison:
  assumes "int64 d"
  shows "sql_integer_gt d
      (if int64 (c * 1000000000) then Integer (c * 1000000000)
       else Real (round_to_double (c * 1000000000)))
    = (c * 1000000000 < d)"
proof (cases "int64 (c * 1000000000)")
  case True
  then show ?thesis by simp
next
  case False
  from assms have d: "- (2 ^ 63) \<le> d" "d < 2 ^ 63"
    by (simp_all add: int64_def INT64_MIN_def INT64_MAX_def)
  from outside_int64 [OF False] show ?thesis
  proof
    assume low: "c * 1000000000 \<le> - (2 ^ 63 + 2048)"
    then have "round_to_double (c * 1000000000) \<le> - (2 ^ 63 + 2048)"
      by (rule round_to_double_below)
    with low d False show ?thesis by simp
  next
    assume high: "2 ^ 63 + 2048 \<le> c * 1000000000"
    then have "2 ^ 63 + 2048 \<le> round_to_double (c * 1000000000)"
      by (rule round_to_double_above)
    with high d False show ?thesis by simp
  qed
qed

text \<open>
  Claim C4, as amended. Let \<open>p = (now - 978307200 - minutes * 60) * 1000000000\<close>, for a
  positive \<^verbatim>\<open>minutes\<close> (a C \<^verbatim>\<open>int\<close>), a clock value the engine can denote and a row whose
  \<^verbatim>\<open>date\<close> is a 64-bit integer. The clause selects the row exactly when its text matches
  and its \<^verbatim>\<open>date\<close> is strictly greater than \<open>p\<close>; so a row qualifies only when its
  \<^verbatim>\<open>date\<close> is strictly greater than \<open>p\<close>. The threshold the engine computes is \<open>p\<close>, in
  integer arithmetic, when \<open>p\<close> lies in the signed 64-bit range; outside that range it is
  the double nearest to \<open>p\<close>, computed in double arithmetic, which is \<open>p\<close> again whenever
  \<open>p\<close> is a double.
\<close>

theorem date_threshold_window:
  assumes "0 < minutes" "minutes \<le> INT_MAX" "clock now" "int64 (m_date m)"
  shows "(int64 ((now - 978307200 - minutes * 60) * 1000000000) \<longrightarrow>
        date_threshold now minutes = Integer ((now - 978307200 - minutes * 60) * 1000000000))
    \<and> (\<not> int64 ((now - 978307200 - minutes * 60) * 1000000000) \<longrightarrow>
        date_threshold now minutes =
          Real (round_to_double ((now - 978307200 - minutes * 60) * 1000000000)))
    \<and> (int64 ((now - 978307200 - minutes * 60) * 1000000000)
        \<or> round_to_double ((now - 978307200 - minutes * 60) * 1000000000)
            = (now - 978307200 - minutes * 60) * 1000000000 \<longrightarrow>
        sql_number (date_threshold now minutes) = (now - 978307200 - minutes * 60) * 1000000000)
    \<and> where_clause now minutes m =
        (like_jarvis (m_text m) \<and> (now - 978307200 - minutes * 60) * 1000000000 < m_date m)
    \<and> (where_clause now minutes m \<longrightarrow>
        (now - 978307200 - minutes * 60) * 1000000000 < m_date m)"
proof -
  note v = date_threshold_value [OF assms(1-3)]
  have w: "where_clause now minutes m =
        (like_jarvis (m_text m) \<and> (now - 978307200 - minutes * 60) * 1000000000 < m_date m)"
    unfolding where_clause_def v
    by (simp only: threshold_comparison [OF assms(4)])
  from v w show ?thesis by auto
qed

theorem date_threshold_window_witness:
  "date_threshold 1700000000 20 = Integer 721691600000000000
   \<and> where_clause 1700000000 20
        \<lparr>m_text = Some ''Jarvis: lights on'', m_date = 721692000000000000\<rparr>
   \<and> \<not> where_clause 1700000000 20
        \<lparr>m_text = Some ''jarvis: lights on'', m_date = 721691600000000000\<rparr>
   \<and> date_threshold 1700000000 200000000 = Real (- 11278307200000000000)
   \<and> sql_number (date_threshold 1700000000 200000000)
       = (1700000000 - 978307200 - 200000000 * 60) * 1000000000
   \<and> where_clause 1700000000 200000000
        \<lparr>m_text = Some ''jarvis: lights on'', m_date = - 9223372036854775808\<rparr>"
proof -
  let ?m1 = "\<lparr>m_text = Some ''Jarvis: lights on'', m_date = 721692000000000000\<rparr>"
  let ?m2 = "\<lparr>m_text = Some ''jarvis: lights on'', m_date = 721691600000000000\<rparr>"
  let ?m3 = "\<lparr>m_text = Some ''jarvis: lights on'', m_date = - 9223372036854775808\<rparr>"
  have h: "(0::int) < 20" "(20::int) \<le> INT_MAX" "(0::int) < 200000000"
    "(200000000::int) \<le> INT_MAX" "clock 1700000000"
    "int64 (m_date ?m1)" "int64 (m_date ?m2)" "int64 (m_date ?m3)"
    by (simp_all add: INT_MAX_def clock_def int64_def INT64_MIN_def INT64_MAX_def)
  have l: "like_jarvis (Some ''Jarvis: lights on'')" "like_jarvis (Some ''jarvis: lights on'')"
    by code_simp+
  have in20: "int64 ((1700000000 - 978307200 - 20 * 60) * 1000000000)"
    by (simp add: int64_def INT64_MIN_def INT64_MAX_def)
  have out: "\<not> int64 ((1700000000 - 978307200 - 200000000 * 60) * 1000000000)"
    by (simp add: int64_def INT64_MIN_def INT64_MAX_def)
  have "bit_length 11278307200000000000 = Suc 63"
    by (rule bit_length_eq) simp_all
  then have r: "round_to_double (- 11278307200000000000) = - 11278307200000000000"
    by (simp add: round_to_double_def Let_def)
  from date_threshold_window [OF h(1,2,5,6)] in20
  have a: "date_threshold 1700000000 20 = Integer 721691600000000000"
    "where_clause 1700000000 20 ?m1"
    by (simp_all add: l)
  from date_threshold_window [OF h(1,2,5,7)]
  have b: "\<not> where_clause 1700000000 20 ?m2"
    by simp
  from date_threshold_window [OF h(3,4,5,8)] out
  have c: "date_threshold 1700000000 200000000 = Real (- 11278307200000000000)"
    "sql_number (date_threshold 1700000000 200000000)
       = (1700000000 - 978307200 - 200000000 * 60) * 1000000000"
    "where_clause 1700000000 200000000 ?m3"
    by (simp_all add: l r)
  from a b c show ?thesis by blast
qed

text \<open>
  The claim as stated fails where \<open>p\<close> is outside the 64-bit range and is not a double:
  with \<^verbatim>\<open>--minutes 2147483647\<close>, which the argument loop accepts, at \<open>now = 1700000000\<close>
  the engine's threshold is 6144 below \<open>p\<close>.
\<close>

theorem date_threshold_counterexample:
  "(0::int) < 2147483647
   \<and> atoi ''2147483647'' = Some 2147483647
   \<and> clock 1700000000
   \<and> (1700000000 - 978307200 - 2147483647 * 60) * 1000000000 = (- 128127326020000000000 :: int)
   \<and> date_threshold 1700000000 2147483647 = Real (- 128127326020000006144)
   \<and> sql_number (date_threshold 1700000000 2147483647)
       \<noteq> (1700000000 - 978307200 - 2147483647 * 60) * 1000000000"
proof -
  have h: "(0::int) < 2147483647" "(2147483647::int) \<le> INT_MAX" "clock 1700000000"
    by (simp_all add: INT_MAX_def clock_def)
  have "bit_length 128127326020000000000 = Suc 66"
    by (rule bit_length_eq) simp_all
  then have r: "round_to_double (- 128127326020000000000) = - 128127326020000006144"
    by (simp add: round_to_double_def Let_def)
  have "date_threshold 1700000000 2147483647 = Real (- 128127326020000006144)"
    unfolding date_threshold_value [OF h]
    by (simp add: int64_def INT64_MIN_def INT64_MAX_def r)
  moreover have "atoi ''2147483647'' = Some 2147483647"
    by code_simp
  ultimately show ?thesis using h by simp
qed

end
